theory Spec2Isabelle
  imports Main "HOL-Library.Word" "HOL-Library.Sublist"
begin

section \<open>The chat hook of the client: streaming responses over two transports\<close>

text \<open>
  This theory embeds the state handling of \<^verbatim>\<open>frontend/src/hooks/useChat.js\<close>: the
  listener for frames of the WebSocket (push) transport, the callbacks of the SSE (pull)
  fallback, the stop handler and the sending of a message with its history window.

  The React state of the hook (\<^verbatim>\<open>messages\<close>, \<^verbatim>\<open>canSendMessage\<close>, \<^verbatim>\<open>inputValue\<close>,
  \<^verbatim>\<open>inputHeight\<close>) and the ref \<^verbatim>\<open>streamingMessageIdRef\<close> are the fields of one record that
  every handler takes and returns. Logging, toasts and scrolling leave that record
  untouched and are not part of the model. The refs \<^verbatim>\<open>currentWebSocketRef\<close> and
  \<^verbatim>\<open>currentExecutionIdRef\<close> are never assigned anything but \<^verbatim>\<open>null\<close> in the hook, so the
  branches of the stop handler that test them are dead and are left out.
\<close>

subsection \<open>Strings\<close>

text \<open>
  A JavaScript string is a sequence of UTF-16 code units; \<^verbatim>\<open>length\<close>, \<^verbatim>\<open>slice\<close>,
  \<^verbatim>\<open>includes\<close> and \<^verbatim>\<open>split\<close> all count code units. The literals of the source are
  written out as code units, with their text (or its translation, the file being ASCII)
  in the comment.
\<close>

type_synonym jsstring = "16 word list"

definition str_newline :: jsstring where
  \<comment> \<open>the line feed\<close>
  "str_newline =
   [10]"

definition str_data_prefix :: jsstring where
  \<comment> \<open>data: \<close>
  "str_data_prefix =
   [100, 97, 116, 97, 58, 32]"

definition str_undefined :: jsstring where
  \<comment> \<open>undefined\<close>
  "str_undefined =
   [117, 110, 100, 101, 102, 105, 110, 101, 100]"

definition str_401 :: jsstring where
  \<comment> \<open>401\<close>
  "str_401 =
   [52, 48, 49]"

definition str_Unauthorized :: jsstring where
  \<comment> \<open>Unauthorized\<close>
  "str_Unauthorized =
   [85, 110, 97, 117, 116, 104, 111, 114, 105, 122, 101, 100]"

definition str_timeout :: jsstring where
  \<comment> \<open>timeout\<close>
  "str_timeout =
   [116, 105, 109, 101, 111, 117, 116]"

definition str_time_exceeded :: jsstring where
  \<comment> \<open>Korean: time exceeded\<close>
  "str_time_exceeded =
   [49884, 44036, 32, 52488, 44284]"

definition str_rate_limit :: jsstring where
  \<comment> \<open>rate limit\<close>
  "str_rate_limit =
   [114, 97, 116, 101, 32, 108, 105, 109, 105, 116]"

definition str_limit :: jsstring where
  \<comment> \<open>Korean: limit\<close>
  "str_limit =
   [51228, 54620]"

definition errorContent_default :: jsstring where
  \<comment> \<open>Korean: an error occurred while processing the message, please try again\<close>
  "errorContent_default =
   [47700, 49884, 51648, 32, 52376, 47532, 32, 51473, 32, 50724, 47448, 44032, 32, 48156,
    49373, 54664, 49845, 45768, 45796, 46, 32, 45796, 49884, 32, 49884, 46020, 54644,
    51452, 49464, 50836, 46]"

definition errorContent_auth :: jsstring where
  \<comment> \<open>Korean: authentication has expired, please log in again\<close>
  "errorContent_auth =
   [51064, 51613, 51060, 32, 47564, 47308, 46104, 50632, 49845, 45768, 45796, 46, 32,
    45796, 49884, 32, 47196, 44536, 51064, 54644, 51452, 49464, 50836, 46]"

definition errorContent_timeout :: jsstring where
  \<comment> \<open>Korean: processing time exceeded, simplify the request or retry later\<close>
  "errorContent_timeout =
   [52376, 47532, 32, 49884, 44036, 51060, 32, 52488, 44284, 46104, 50632, 49845, 45768,
    45796, 46, 32, 50836, 52397, 51012, 32, 45800, 49692, 54868, 54616, 44144, 45208, 32,
    51104, 49884, 32, 54980, 32, 45796, 49884, 32, 49884, 46020, 54644, 51452, 49464,
    50836, 46]"

definition errorContent_rate :: jsstring where
  \<comment> \<open>Korean: request limit reached, retry later\<close>
  "errorContent_rate =
   [50836, 52397, 32, 54620, 46020, 50640, 32, 46020, 45804, 54664, 49845, 45768, 45796,
    46, 32, 51104, 49884, 32, 54980, 32, 45796, 49884, 32, 49884, 46020, 54644, 51452,
    49464, 50836, 46]"

definition stop_notice :: jsstring where
  \<comment> \<open>two line feeds and, in brackets, Korean: generation was stopped\<close>
  "stop_notice =
   [10, 10, 91, 49373, 49457, 51060, 32, 51473, 45800, 46104, 50632, 49845, 45768, 45796,
    93]"

definition str_Bearer :: jsstring where
  \<comment> \<open>Bearer, followed by a space\<close>
  "str_Bearer =
   [66, 101, 97, 114, 101, 114, 32]"

definition str_ellipsis :: jsstring where
  \<comment> \<open>...\<close>
  "str_ellipsis =
   [46, 46, 46]"

definition str_new_conversation :: jsstring where
  \<comment> \<open>Korean: new conversation\<close>
  "str_new_conversation =
   [49352, 32, 45824, 54868]"

definition str_Untitled :: jsstring where
  \<comment> \<open>Untitled\<close>
  "str_Untitled =
   [85, 110, 116, 105, 116, 108, 101, 100]"

definition str_default :: jsstring where
  \<comment> \<open>default\<close>
  "str_default =
   [100, 101, 102, 97, 117, 108, 116]"

definition apiUrl :: jsstring where
  \<comment> \<open>the API base URL\<close>
  "apiUrl =
   [104, 116, 116, 112, 115, 58, 47, 47, 53, 110, 97, 118, 106, 104, 57, 48, 111, 54, 46,
    101, 120, 101, 99, 117, 116, 101, 45, 97, 112, 105, 46, 97, 112, 45, 110, 111, 114,
    116, 104, 101, 97, 115, 116, 45, 50, 46, 97, 109, 97, 122, 111, 110, 97, 119, 115, 46,
    99, 111, 109, 47, 112, 114, 111, 100]"

definition str_projects :: jsstring where
  \<comment> \<open>/projects/\<close>
  "str_projects =
   [47, 112, 114, 111, 106, 101, 99, 116, 115, 47]"

definition str_generate_stream :: jsstring where
  \<comment> \<open>/generate/stream\<close>
  "str_generate_stream =
   [47, 103, 101, 110, 101, 114, 97, 116, 101, 47, 115, 116, 114, 101, 97, 109]"

text \<open>\<^verbatim>\<open>s.startsWith(p)\<close> and \<^verbatim>\<open>s.includes(p)\<close>.\<close>

definition startsWith :: "'a list \<Rightarrow> 'a list \<Rightarrow> bool" where
  "startsWith s p = (take (length p) s = p)"

fun includes_str :: "'a list \<Rightarrow> 'a list \<Rightarrow> bool" where
  "includes_str [] p = (p = [])"
| "includes_str (x # xs) p = (startsWith (x # xs) p \<or> includes_str xs p)"

text \<open>
  \<^verbatim>\<open>s.split(c)\<close> for a separator of one code unit: the pieces between the separators, so
  always at least one piece, the last one being what follows the last separator.
\<close>

fun split_on :: "'a \<Rightarrow> 'a list \<Rightarrow> 'a list list" where
  "split_on c [] = [[]]"
| "split_on c (x # xs) =
     (if x = c then [] # split_on c xs
      else (case split_on c xs of
              [] \<Rightarrow> [[x]]
            | l # ls \<Rightarrow> (x # l) # ls))"

text \<open>
  JavaScript's \<^verbatim>\<open>undefined + s\<close> is the string \<^verbatim>\<open>"undefined"\<close> followed by \<^verbatim>\<open>s\<close>; a
  field that may be \<^verbatim>\<open>undefined\<close> is an option, and \<^verbatim>\<open>v || ""\<close> reads it with the empty
  string as default.
\<close>

definition js_plus :: "jsstring option \<Rightarrow> jsstring \<Rightarrow> jsstring" where
  "js_plus v s = (case v of None \<Rightarrow> str_undefined @ s | Some c \<Rightarrow> c @ s)"

definition or_empty :: "jsstring option \<Rightarrow> jsstring" where
  "or_empty v = (case v of None \<Rightarrow> [] | Some c \<Rightarrow> c)"

subsection \<open>Messages and the state of the hook\<close>

text \<open>
  Message ids are the strings \<^verbatim>\<open>"user-" + Date.now()\<close>, \<^verbatim>\<open>"streaming-" + Date.now()\<close> and
  \<^verbatim>\<open>"error-" + Date.now()\<close>. Two such strings are equal exactly when prefix and number
  are, which is the equality of this datatype.
\<close>

datatype msgid = UserId nat | StreamingId nat | ErrorId nat

datatype role = User | Assistant

typedecl source
typedecl thinking_step

record typing_progress =
  currentChunk :: nat
  totalChunks :: nat
  isTyping :: bool

text \<open>What the \<^verbatim>\<open>catch\<close> block of \<^verbatim>\<open>handleSendMessage\<close> can receive.\<close>

datatype send_error =
    FetchFailed jsstring
  | HttpNotOk nat jsstring
  | ReadFailed jsstring
  | NoResultInStream
  | ReferenceFailed

text \<open>
  A message object. A flag that the source leaves out of an object literal is
  \<^verbatim>\<open>undefined\<close> there and only ever tested for truthiness, so it is \<open>False\<close> here.
  \<^verbatim>\<open>performance_metrics\<close> and \<^verbatim>\<open>model_info\<close> are omitted: the only caller of
  \<^verbatim>\<open>handleStreamingComplete\<close> passes \<^verbatim>\<open>{ result: fullResponse }\<close>, which sets both to
  \<^verbatim>\<open>undefined\<close>.
\<close>

record message =
  msg_id :: msgid
  msg_type :: role
  content :: "jsstring option"
  timestamp :: nat
  isLoading :: bool
  isStreaming :: bool
  isError :: bool
  sources :: "source list"
  thinkingProcess :: "thinking_step list"
  typingProgress :: "typing_progress option"
  errorDetails :: "send_error option"

record chat_state =
  messages :: "message list"
  canSendMessage :: bool
  streamingMessageIdRef :: "msgid option"
  inputValue :: jsstring
  inputHeight :: nat

text \<open>\<^verbatim>\<open>xs.findIndex(p)\<close>, with \<open>None\<close> for \<^verbatim>\<open>-1\<close>.\<close>

fun findIndex :: "('a \<Rightarrow> bool) \<Rightarrow> 'a list \<Rightarrow> nat option" where
  "findIndex p [] = None"
| "findIndex p (x # xs) =
     (if p x then Some 0 else map_option Suc (findIndex p xs))"

text \<open>
  The body shared by the \<^verbatim>\<open>setMessages((prev) => ...)\<close> updaters of the listener, of the
  two callbacks and of the stop handler: copy the list, look the streaming message up by
  the id read before the call, replace it by an updated copy when it is found and return
  the copy unchanged otherwise.
\<close>

definition updateStreamingMsg ::
    "msgid \<Rightarrow> (message \<Rightarrow> message) \<Rightarrow> message list \<Rightarrow> message list" where
  "updateStreamingMsg currentStreamingId upd prev =
     (case findIndex (\<lambda>msg. msg_id msg = currentStreamingId) prev of
        None \<Rightarrow> prev
      | Some streamingMsgIndex \<Rightarrow>
          prev[streamingMsgIndex := upd (prev ! streamingMsgIndex)])"

subsection \<open>Frames of the push transport\<close>

text \<open>
  The parsed \<^verbatim>\<open>event.data\<close> of a WebSocket message, by its \<^verbatim>\<open>type\<close>. Fields that the
  listener reads through \<^verbatim>\<open>||\<close> or \<^verbatim>\<open>?.\<close> may be absent. \<open>Malformed\<close> is an event whose
  data \<^verbatim>\<open>JSON.parse\<close> rejects.
\<close>

datatype ws_data =
    StreamStart
  | Progress
  | StreamChunk jsstring "nat option" "nat option"
  | StreamComplete "jsstring option" "source list option" "thinking_step list option"
  | ErrorFrame "jsstring option"
  | UnknownType

datatype ws_event = Parsed ws_data | Malformed

text \<open>\<^verbatim>\<open>data.message?.includes(p)\<close>: \<^verbatim>\<open>undefined\<close>, so falsy, when there is no message.\<close>

definition message_includes :: "jsstring option \<Rightarrow> jsstring \<Rightarrow> bool" where
  "message_includes m p = (case m of None \<Rightarrow> False | Some s \<Rightarrow> includes_str s p)"

definition errorContent :: "jsstring option \<Rightarrow> jsstring" where
  "errorContent m =
     (if message_includes m str_401 \<or> message_includes m str_Unauthorized
        then errorContent_auth
      else if message_includes m str_timeout \<or> message_includes m str_time_exceeded
        then errorContent_timeout
      else if message_includes m str_rate_limit \<or> message_includes m str_limit
        then errorContent_rate
      else errorContent_default)"

text \<open>\<^verbatim>\<open>n || d\<close> on an optional number: the default for \<^verbatim>\<open>undefined\<close> and for \<^verbatim>\<open>0\<close>.\<close>

definition num_or :: "nat option \<Rightarrow> nat \<Rightarrow> nat" where
  "num_or v d = (case v of None \<Rightarrow> d | Some n \<Rightarrow> if n = 0 then d else n)"

definition list_or_empty :: "'a list option \<Rightarrow> 'a list" where
  "list_or_empty v = (case v of None \<Rightarrow> [] | Some xs \<Rightarrow> xs)"

definition applyChunk :: "jsstring \<Rightarrow> nat option \<Rightarrow> nat option \<Rightarrow> message \<Rightarrow> message" where
  "applyChunk c chunk_index total_chunks msg =
     msg\<lparr> content := Some (or_empty (content msg) @ c),
          isLoading := True,
          isStreaming := True,
          typingProgress := Some \<lparr> currentChunk = num_or chunk_index 0,
                                   totalChunks = num_or total_chunks 1,
                                   isTyping = True \<rparr> \<rparr>"

definition applyComplete ::
    "nat \<Rightarrow> jsstring option \<Rightarrow> source list option \<Rightarrow> thinking_step list option \<Rightarrow>
     message \<Rightarrow> message" where
  "applyComplete now fullContent srcs tp msg =
     msg\<lparr> content := fullContent,
          sources := list_or_empty srcs,
          thinkingProcess := list_or_empty tp,
          isLoading := False,
          isStreaming := False,
          timestamp := now \<rparr>"

definition applyError :: "nat \<Rightarrow> jsstring option \<Rightarrow> message \<Rightarrow> message" where
  "applyError now m msg =
     msg\<lparr> content := Some (errorContent m),
          isLoading := False,
          isStreaming := False,
          isError := True,
          timestamp := now \<rparr>"

text \<open>
  The listener \<^verbatim>\<open>handleWebSocketMessage\<close>; \<open>now\<close> is the clock read by
  \<^verbatim>\<open>new Date()\<close>. A parse failure is caught and logged.
\<close>

fun handleWebSocketMessage :: "nat \<Rightarrow> ws_event \<Rightarrow> chat_state \<Rightarrow> chat_state" where
  "handleWebSocketMessage now Malformed s = s"
| "handleWebSocketMessage now (Parsed StreamStart) s = s"
| "handleWebSocketMessage now (Parsed Progress) s = s"
| "handleWebSocketMessage now (Parsed (StreamChunk c chunk_index total_chunks)) s =
     (case streamingMessageIdRef s of
        None \<Rightarrow> s
      | Some currentStreamingId \<Rightarrow>
          s\<lparr> messages :=
               updateStreamingMsg currentStreamingId
                 (applyChunk c chunk_index total_chunks) (messages s) \<rparr>)"
| "handleWebSocketMessage now (Parsed (StreamComplete fullContent srcs tp)) s =
     (case streamingMessageIdRef s of
        None \<Rightarrow> s
      | Some currentStreamingId \<Rightarrow>
          s\<lparr> messages :=
               updateStreamingMsg currentStreamingId
                 (applyComplete now fullContent srcs tp) (messages s),
             streamingMessageIdRef := None \<rparr>)"
| "handleWebSocketMessage now (Parsed (ErrorFrame m)) s =
     (case streamingMessageIdRef s of
        None \<Rightarrow> s
      | Some currentStreamingId \<Rightarrow>
          s\<lparr> messages :=
               updateStreamingMsg currentStreamingId (applyError now m) (messages s),
             streamingMessageIdRef := None \<rparr>)"
| "handleWebSocketMessage now (Parsed UnknownType) s = s"

subsection \<open>Callbacks of the pull transport and the stop handler\<close>

text \<open>\<^verbatim>\<open>handleStreamingResponse(chunk)\<close>.\<close>

definition handleStreamingResponse :: "jsstring \<Rightarrow> chat_state \<Rightarrow> chat_state" where
  "handleStreamingResponse chunk s =
     (case streamingMessageIdRef s of
        None \<Rightarrow> s
      | Some currentStreamingId \<Rightarrow>
          s\<lparr> messages :=
               updateStreamingMsg currentStreamingId
                 (\<lambda>msg. msg\<lparr> content := Some (js_plus (content msg) chunk),
                             isLoading := True,
                             isStreaming := True \<rparr>)
                 (messages s) \<rparr>)"

text \<open>
  \<^verbatim>\<open>handleStreamingComplete(result)\<close>, of which only \<^verbatim>\<open>result.result\<close> is ever set.
\<close>

definition handleStreamingComplete :: "nat \<Rightarrow> jsstring \<Rightarrow> chat_state \<Rightarrow> chat_state" where
  "handleStreamingComplete now result s =
     (case streamingMessageIdRef s of
        None \<Rightarrow> s
      | Some currentStreamingId \<Rightarrow>
          s\<lparr> messages :=
               updateStreamingMsg currentStreamingId
                 (\<lambda>msg. msg\<lparr> content := Some result,
                             isLoading := False,
                             isStreaming := False,
                             timestamp := now \<rparr>)
                 (messages s),
             streamingMessageIdRef := None,
             canSendMessage := True \<rparr>)"

text \<open>\<^verbatim>\<open>handleStopGeneration()\<close>.\<close>

definition handleStopGeneration :: "nat \<Rightarrow> chat_state \<Rightarrow> chat_state" where
  "handleStopGeneration now s =
     (let s1 = (case streamingMessageIdRef s of
                  None \<Rightarrow> s
                | Some currentStreamingId \<Rightarrow>
                    s\<lparr> messages :=
                         updateStreamingMsg currentStreamingId
                           (\<lambda>msg. msg\<lparr> content := Some (js_plus (content msg) stop_notice),
                                       isLoading := False,
                                       isStreaming := False,
                                       timestamp := now \<rparr>)
                           (messages s),
                       streamingMessageIdRef := None \<rparr>)
      in s1\<lparr> canSendMessage := True \<rparr>)"

subsection \<open>Sending a message\<close>

text \<open>
  \<^verbatim>\<open>s.trim()\<close> removes the white space and line terminators of ECMAScript from both
  ends.
\<close>

definition isWhiteSpace :: "16 word \<Rightarrow> bool" where
  "isWhiteSpace c =
     (c \<in> set [9, 10, 11, 12, 13, 32, 160, 5760, 8232, 8233, 8239, 8287, 12288, 65279]
      \<or> (8192 \<le> c \<and> c \<le> 8202))"

definition trim :: "jsstring \<Rightarrow> jsstring" where
  "trim s = rev (dropWhile isWhiteSpace (rev (dropWhile isWhiteSpace s)))"

text \<open>\<^verbatim>\<open>xs.slice(-n)\<close> for a positive \<open>n\<close>: the last \<open>n\<close> elements, or all of them.\<close>

definition slice_last :: "nat \<Rightarrow> 'a list \<Rightarrow> 'a list" where
  "slice_last n xs = drop (length xs - n) xs"

definition generateConversationTitle :: "jsstring \<Rightarrow> jsstring" where
  "generateConversationTitle userInput =
     (let firstLine = (case split_on 10 userInput of [] \<Rightarrow> [] | l # _ \<Rightarrow> l);
          title = (if length firstLine > 50 then take 47 firstLine @ str_ellipsis
                   else firstLine)
      in if trim title = [] then str_new_conversation else trim title)"

text \<open>
  The history sent with a turn: the messages that are neither loading, nor errors, nor
  streaming, each reduced to its role and content, and of those the last fifty.
\<close>

record history_entry =
  role :: role
  entry_content :: "jsstring option"

definition chatHistory :: "message list \<Rightarrow> history_entry list" where
  "chatHistory allMessages =
     map (\<lambda>msg. \<lparr> role = (if msg_type msg = User then User else Assistant),
                   entry_content = content msg \<rparr>)
         (filter (\<lambda>msg. \<not> isLoading msg \<and> \<not> isError msg \<and> \<not> isStreaming msg)
                 allMessages)"

definition maxHistoryLength :: nat where
  "maxHistoryLength = 50"

text \<open>
  Prompt cards as the caller passes them, every field optional, and as they are sent.
  \<^verbatim>\<open>a || b\<close> on optional strings takes \<open>b\<close> when \<open>a\<close> is \<^verbatim>\<open>undefined\<close> or empty.
\<close>

typedecl tag

record prompt_card =
  card_promptId :: "jsstring option"
  card_prompt_id :: "jsstring option"
  card_title :: "jsstring option"
  card_prompt_text :: "jsstring option"
  card_content :: "jsstring option"
  card_tags :: "tag list option"
  card_isActive :: "bool option"
  card_enabled :: "bool option"
  card_stepOrder :: "int option"

record active_card =
  promptId :: "jsstring option"
  title :: jsstring
  prompt_text :: jsstring
  tags :: "tag list"
  isActive :: bool
  stepOrder :: int

definition js_or :: "jsstring option \<Rightarrow> jsstring option \<Rightarrow> jsstring option" where
  "js_or a b = (case a of None \<Rightarrow> b | Some x \<Rightarrow> if x = [] then b else a)"

definition activePromptCards :: "prompt_card list option \<Rightarrow> active_card list" where
  "activePromptCards promptCards =
     (let safePromptCards = (case promptCards of None \<Rightarrow> [] | Some cs \<Rightarrow> cs)
      in sort_key stepOrder
           (filter (\<lambda>card. trim (prompt_text card) \<noteq> [])
              (map (\<lambda>card.
                      \<lparr> promptId = js_or (card_promptId card) (card_prompt_id card),
                        title = or_empty (js_or (card_title card) (Some str_Untitled)),
                        prompt_text =
                          or_empty (js_or (js_or (card_prompt_text card) (card_content card))
                                          (Some [])),
                        tags = list_or_empty (card_tags card),
                        isActive = (card_isActive card \<noteq> Some False),
                        stepOrder = (case card_stepOrder card of None \<Rightarrow> 0 | Some n \<Rightarrow> n) \<rparr>)
                 (filter (\<lambda>card. card_isActive card \<noteq> Some False
                                  \<and> card_enabled card \<noteq> Some False)
                         safePromptCards))))"

text \<open>What is handed to a transport.\<close>

record ws_request =
  ws_userInput :: "jsstring option"
  ws_history :: "history_entry list"
  ws_promptCards :: "active_card list"
  ws_model :: jsstring
  ws_conversationId :: "jsstring option"
  ws_userSub :: "jsstring option"

record sse_request =
  endpoint :: jsstring
  authorization :: "jsstring option"
  userInput :: "jsstring option"
  chat_history :: "history_entry list"
  prompt_cards :: "active_card list"
  modelId :: jsstring
  useKnowledgeBase :: bool

datatype outbound = WsStart ws_request | SsePost sse_request

text \<open>
  The answer of \<^verbatim>\<open>fetch\<close>: a rejection, or a response with its \<^verbatim>\<open>ok\<close> flag, status,
  status text and body. The body is the list of decoded pieces that \<^verbatim>\<open>reader.read()\<close>
  delivers, ended by \<^verbatim>\<open>done\<close> or by a read that throws.
\<close>

datatype body_end = Done | ReadError jsstring

datatype fetch_outcome =
    FetchRejected jsstring
  | Response bool nat jsstring "jsstring list" body_end

text \<open>The object parsed from a \<^verbatim>\<open>data: \<close> line, of which the loop reads \<^verbatim>\<open>result\<close>.\<close>

datatype sse_event = SseEvent (result: "jsstring option")

text \<open>
  Everything one call of \<^verbatim>\<open>handleSendMessage\<close> gets from outside the hook's state: the
  clock at each \<^verbatim>\<open>Date.now()\<close>, the props and context values, the functions of
  \<^verbatim>\<open>useWebSocket\<close> and of \<^verbatim>\<open>services/api\<close> (neither is part of these sources),
  \<^verbatim>\<open>JSON.parse\<close> (\<open>None\<close> when it throws) and the network. \<^verbatim>\<open>createConversationFn\<close> is
  \<open>None\<close> when it or \<^verbatim>\<open>setCurrentConversationFn\<close> is missing; it yields the id of the new
  conversation, or \<open>None\<close> when it rejects. The identifier \<^verbatim>\<open>projectId\<close> is read by the
  fallback but declared nowhere in the hook: \<open>None\<close> stands for an unbound identifier,
  whose read throws, and \<open>Some v\<close> for a binding of the enclosing scope.
  \<open>updaterAtRender\<close> says when React runs the updater that the \<^verbatim>\<open>catch\<close> block passes to
  \<^verbatim>\<open>setMessages\<close>: at the next render, as React queues updaters, or at the call itself,
  as React does when the component has no update pending.
\<close>

record send_env =
  now_user :: nat
  now_stream :: nat
  now_complete :: nat
  now_error :: nat
  conversationId :: "jsstring option"
  createConversationFn :: "(jsstring \<Rightarrow> jsstring option option) option"
  promptCards :: "prompt_card list option"
  selectedModel :: jsstring
  userId :: "jsstring option"
  wsConnected :: bool
  wsStartStreaming :: "ws_request \<Rightarrow> bool"
  projectId :: "jsstring option option"
  authToken :: "jsstring option"
  fetch :: "sse_request \<Rightarrow> fetch_outcome"
  JSON_parse :: "jsstring \<Rightarrow> sse_event option"
  handleAPIError :: "send_error \<Rightarrow> jsstring option \<times> bool"
  updaterAtRender :: bool

definition conversationIdToUse :: "send_env \<Rightarrow> jsstring \<Rightarrow> jsstring option" where
  "conversationIdToUse env input =
     (if or_empty (conversationId env) = [] then
        (case createConversationFn env of
           None \<Rightarrow> conversationId env
         | Some create \<Rightarrow>
             (case create (generateConversationTitle input) of
                None \<Rightarrow> conversationId env
              | Some newId \<Rightarrow> newId))
      else conversationId env)"

text \<open>One \<^verbatim>\<open>data: \<close> line of the response body, inside the \<^verbatim>\<open>for\<close> loop over the lines.\<close>

definition processLine ::
    "(jsstring \<Rightarrow> sse_event option) \<Rightarrow> jsstring \<times> chat_state \<Rightarrow> jsstring \<Rightarrow>
     jsstring \<times> chat_state" where
  "processLine parse acc line =
     (if startsWith line str_data_prefix then
        (case parse (drop 6 line) of
           None \<Rightarrow> acc
         | Some eventData \<Rightarrow>
             (case result eventData of
                None \<Rightarrow> acc
              | Some r \<Rightarrow>
                  if r = [] then acc
                  else (r, handleStreamingResponse r (snd acc))))
      else acc)"

text \<open>
  The \<^verbatim>\<open>while (true)\<close> loop over the pieces of the body, with the local variables
  \<^verbatim>\<open>buffer\<close> and \<^verbatim>\<open>fullResponse\<close>. It ends with the body, which is finite.
\<close>

fun readLoop ::
    "(jsstring \<Rightarrow> sse_event option) \<Rightarrow> jsstring list \<Rightarrow> jsstring \<Rightarrow> jsstring \<times> chat_state \<Rightarrow>
     jsstring \<times> jsstring \<times> chat_state" where
  "readLoop parse [] buffer acc = (buffer, acc)"
| "readLoop parse (v # rest) buffer acc =
     (let lines = split_on 10 (buffer @ v)
      in readLoop parse rest
           (if lines = [] then [] else last lines)
           (foldl (processLine parse) acc (butlast lines)))"

text \<open>
  The \<^verbatim>\<open>catch\<close> block of \<^verbatim>\<open>handleSendMessage\<close>, up to the end of the function. Its
  updater reads \<^verbatim>\<open>streamingMessageIdRef.current\<close> when it runs, not before, and the
  statement after \<^verbatim>\<open>setMessages\<close> sets the ref to \<^verbatim>\<open>null\<close>. An updater that runs at the
  next render therefore finds \<^verbatim>\<open>null\<close>, which is the id of no message: the filter keeps the
  whole list, the streaming message with it. Only an updater that runs at the call finds
  the id and removes the streaming message.
\<close>

definition sendFailed :: "send_env \<Rightarrow> send_error \<Rightarrow> chat_state \<Rightarrow> chat_state" where
  "sendFailed env err s =
     (case handleAPIError env err of
        (errorUserMessage, shouldRedirect) \<Rightarrow>
          if shouldRedirect then s
          else
            (let errorMessage =
                   \<lparr> msg_id = ErrorId (now_error env),
                     msg_type = Assistant,
                     content = errorUserMessage,
                     timestamp = now_error env,
                     isLoading = False,
                     isStreaming = False,
                     isError = True,
                     sources = [],
                     thinkingProcess = [],
                     typingProgress = None,
                     errorDetails = Some err \<rparr>;
                 currentStreamingId =
                   (if updaterAtRender env then None else streamingMessageIdRef s)
             in s\<lparr> messages :=
                      filter (\<lambda>msg. Some (msg_id msg) \<noteq> currentStreamingId) (messages s)
                      @ [errorMessage],
                    streamingMessageIdRef := None,
                    canSendMessage := True \<rparr>))"

text \<open>
  The endpoint, headers and body of the fallback's POST request. The \<^verbatim>\<open>Authorization\<close>
  header is set only for a token that is there and not empty.
\<close>

definition requestData ::
    "send_env \<Rightarrow> jsstring option \<Rightarrow> jsstring option \<Rightarrow> history_entry list \<Rightarrow>
     active_card list \<Rightarrow> sse_request" where
  "requestData env pid input trimmedChatHistory cards =
     \<lparr> endpoint = apiUrl @ str_projects @ or_empty (js_or pid (Some str_default))
                    @ str_generate_stream,
       authorization =
         (case js_or (authToken env) None of
            None \<Rightarrow> None
          | Some token \<Rightarrow> Some (str_Bearer @ token)),
       userInput = input,
       chat_history = trimmedChatHistory,
       prompt_cards = cards,
       modelId = selectedModel env,
       useKnowledgeBase = True \<rparr>"

text \<open>The SSE fallback: from the building of the endpoint to the end of the function.\<close>

definition sseFallback ::
    "send_env \<Rightarrow> jsstring option \<Rightarrow> history_entry list \<Rightarrow> active_card list \<Rightarrow> chat_state \<Rightarrow>
     chat_state \<times> outbound list" where
  "sseFallback env input trimmedChatHistory cards s =
     (case projectId env of
        None \<Rightarrow> (sendFailed env ReferenceFailed s, [])
      | Some pid \<Rightarrow>
          (let req = requestData env pid input trimmedChatHistory cards
           in ((case fetch env req of
                  FetchRejected e \<Rightarrow> sendFailed env (FetchFailed e) s
                | Response ok status statusText body ending \<Rightarrow>
                    if \<not> ok then sendFailed env (HttpNotOk status statusText) s
                    else
                      (case readLoop (JSON_parse env) body [] ([], s) of
                         (buffer, fullResponse, s') \<Rightarrow>
                           (case ending of
                              ReadError e \<Rightarrow> sendFailed env (ReadFailed e) s'
                            | Done \<Rightarrow>
                                if fullResponse \<noteq> [] then
                                  (handleStreamingComplete (now_complete env) fullResponse s')
                                    \<lparr> canSendMessage := True \<rparr>
                                else sendFailed env NoResultInStream s'))),
               [SsePost req])))"

text \<open>
  \<^verbatim>\<open>handleSendMessage()\<close>: the new state and the requests handed to the transports, in
  order. The call runs to its end without another handler in between. Every updater but
  the one of the \<^verbatim>\<open>catch\<close> block works on an id read before \<^verbatim>\<open>setMessages\<close> is called, so
  it yields the same list whenever React runs it.

  The first test reads the gate from the state. The source reads the value that the
  callback captured when it was last created, and \<^verbatim>\<open>canSendMessage\<close> is not among the
  dependencies of \<^verbatim>\<open>useCallback\<close>. The gate is closed in one place only, next to a
  \<^verbatim>\<open>setMessages\<close> that has the callback created again, so a closed gate is a captured
  closed gate and the source rejects whenever this function does. The source rejects more:
  a gate opened with no change of the messages or of the input (a stop with no streaming
  message) is still closed for the callback until one of them changes.
\<close>

definition handleSendMessage :: "send_env \<Rightarrow> chat_state \<Rightarrow> chat_state \<times> outbound list" where
  "handleSendMessage env s =
     (if trim (inputValue s) = [] \<or> \<not> canSendMessage s then (s, [])
      else
        (let convId = conversationIdToUse env (inputValue s);
             userMessage =
               \<lparr> msg_id = UserId (now_user env),
                 msg_type = User,
                 content = Some (trim (inputValue s)),
                 timestamp = now_user env,
                 isLoading = False,
                 isStreaming = False,
                 isError = False,
                 sources = [],
                 thinkingProcess = [],
                 typingProgress = None,
                 errorDetails = None \<rparr>;
             streamMsgId = StreamingId (now_stream env);
             streamingMessage =
               \<lparr> msg_id = streamMsgId,
                 msg_type = Assistant,
                 content = Some [],
                 timestamp = now_stream env,
                 isLoading = True,
                 isStreaming = True,
                 isError = False,
                 sources = [],
                 thinkingProcess = [],
                 typingProgress = None,
                 errorDetails = None \<rparr>;
             s1 = s\<lparr> canSendMessage := False,
                     streamingMessageIdRef := Some streamMsgId,
                     messages := messages s @ [userMessage, streamingMessage],
                     inputValue := [],
                     inputHeight := 24 \<rparr>;
             allMessages = messages s @ [userMessage];
             trimmedChatHistory = slice_last maxHistoryLength (chatHistory allMessages);
             cards = activePromptCards (promptCards env);
             wsRequest =
               \<lparr> ws_userInput = content userMessage,
                 ws_history = trimmedChatHistory,
                 ws_promptCards = cards,
                 ws_model = selectedModel env,
                 ws_conversationId = convId,
                 ws_userSub = userId env \<rparr>
         in if wsConnected env then
              (if wsStartStreaming env wsRequest then (s1, [WsStart wsRequest])
               else (case sseFallback env (content userMessage) trimmedChatHistory cards s1 of
                       (s2, reqs) \<Rightarrow> (s2, WsStart wsRequest # reqs)))
            else sseFallback env (content userMessage) trimmedChatHistory cards s1))"

text \<open>\<^verbatim>\<open>setInputValue(value)\<close>, which the hook hands to the input field.\<close>

definition setInputValue :: "jsstring \<Rightarrow> chat_state \<Rightarrow> chat_state" where
  "setInputValue v s = s\<lparr> inputValue := v \<rparr>"

subsection \<open>Runs of frames and events\<close>

text \<open>
  A frame is what a transport delivers while a turn streams: a WebSocket message, handled
  by the listener at some clock value, or a \<^verbatim>\<open>result\<close> payload of the SSE body, handed to
  \<^verbatim>\<open>handleStreamingResponse\<close>.
\<close>

datatype frame = PushFrame nat ws_event | PullResult jsstring

fun deliver :: "frame \<Rightarrow> chat_state \<Rightarrow> chat_state" where
  "deliver (PushFrame now ev) s = handleWebSocketMessage now ev s"
| "deliver (PullResult r) s = handleStreamingResponse r s"

fun deliverAll :: "frame list \<Rightarrow> chat_state \<Rightarrow> chat_state" where
  "deliverAll [] s = s"
| "deliverAll (f # fs) s = deliverAll fs (deliver f s)"

text \<open>A \<^verbatim>\<open>stream_chunk\<close> frame with its clock value, content, index and total.\<close>

definition chunkFrame :: "nat \<times> jsstring \<times> nat option \<times> nat option \<Rightarrow> frame" where
  "chunkFrame x =
     (case x of (now, c, chunk_index, total_chunks) \<Rightarrow>
        PushFrame now (Parsed (StreamChunk c chunk_index total_chunks)))"

text \<open>
  Besides frames, a streaming message is touched by the completion callback of the pull
  transport and by the stop handler.
\<close>

datatype event = Delivered frame | PullCompleted nat jsstring | StopRequested nat

fun applyEvent :: "event \<Rightarrow> chat_state \<Rightarrow> chat_state" where
  "applyEvent (Delivered f) s = deliver f s"
| "applyEvent (PullCompleted now r) s = handleStreamingComplete now r s"
| "applyEvent (StopRequested now) s = handleStopGeneration now s"

fun run :: "event list \<Rightarrow> chat_state \<Rightarrow> chat_state" where
  "run [] s = s"
| "run (e # es) s = run es (applyEvent e s)"

text \<open>
  The message that the ref designates, if there is one, is streaming. It holds after
  \<^verbatim>\<open>handleSendMessage\<close> has appended the placeholder under an id that no earlier message
  has.
\<close>

definition refStreaming :: "chat_state \<Rightarrow> bool" where
  "refStreaming s =
     (case streamingMessageIdRef s of
        None \<Rightarrow> True
      | Some i \<Rightarrow>
          (case findIndex (\<lambda>msg. msg_id msg = i) (messages s) of
             None \<Rightarrow> True
           | Some k \<Rightarrow> isStreaming (messages s ! k)))"

text \<open>The id in the ref, if there is one, is not the id of any of the first \<open>n\<close> messages.\<close>

definition refBeyond :: "nat \<Rightarrow> chat_state \<Rightarrow> bool" where
  "refBeyond n s =
     (case streamingMessageIdRef s of
        None \<Rightarrow> True
      | Some i \<Rightarrow> i \<notin> msg_id ` set (take n (messages s)))"

text \<open>The length of a message's content, an absent content counting as empty.\<close>

definition contentLength :: "message \<Rightarrow> nat" where
  "contentLength msg = length (or_empty (content msg))"

text \<open>
  The lines that the read loop hands to its \<^verbatim>\<open>for\<close> body, over the whole response body,
  and the payload of a line: the non-empty \<^verbatim>\<open>result\<close> of a \<^verbatim>\<open>data: \<close> line that parses.
\<close>

fun bodyLines :: "jsstring list \<Rightarrow> jsstring \<Rightarrow> jsstring list" where
  "bodyLines [] buffer = []"
| "bodyLines (v # rest) buffer =
     (let lines = split_on 10 (buffer @ v)
      in butlast lines @ bodyLines rest (if lines = [] then [] else last lines))"

definition linePayload :: "(jsstring \<Rightarrow> sse_event option) \<Rightarrow> jsstring \<Rightarrow> jsstring option" where
  "linePayload parse line =
     (if startsWith line str_data_prefix then
        (case parse (drop 6 line) of
           None \<Rightarrow> None
         | Some eventData \<Rightarrow>
             (case result eventData of
                None \<Rightarrow> None
              | Some r \<Rightarrow> if r = [] then None else Some r))
      else None)"

definition payloads :: "(jsstring \<Rightarrow> sse_event option) \<Rightarrow> jsstring list \<Rightarrow> jsstring list" where
  "payloads parse body = List.map_filter (linePayload parse) (bodyLines body [])"

definition historyOf :: "outbound \<Rightarrow> history_entry list" where
  "historyOf r = (case r of WsStart w \<Rightarrow> ws_history w | SsePost p \<Rightarrow> chat_history p)"

subsection \<open>Example states\<close>

text \<open>
  A turn in flight: a user message, and the assistant's placeholder with partial content
  \<open>p\<close>, designated by the ref, the gate closed.
\<close>

definition exUserMessage :: "nat \<Rightarrow> jsstring \<Rightarrow> message" where
  "exUserMessage t c =
     \<lparr> msg_id = UserId t, msg_type = User, content = Some c, timestamp = t,
       isLoading = False, isStreaming = False, isError = False, sources = [],
       thinkingProcess = [], typingProgress = None, errorDetails = None \<rparr>"

definition exStreamingMessage :: "nat \<Rightarrow> jsstring \<Rightarrow> message" where
  "exStreamingMessage t p =
     \<lparr> msg_id = StreamingId t, msg_type = Assistant, content = Some p, timestamp = t,
       isLoading = True, isStreaming = True, isError = False, sources = [],
       thinkingProcess = [], typingProgress = None, errorDetails = None \<rparr>"

definition exInFlight :: "jsstring \<Rightarrow> chat_state" where
  "exInFlight p =
     \<lparr> messages = [exUserMessage 1 [72, 105], exStreamingMessage 2 p],
       canSendMessage = False,
       streamingMessageIdRef = Some (StreamingId 2),
       inputValue = [],
       inputHeight = 24 \<rparr>"

text \<open>An idle hook with \<open>n\<close> completed messages and the input \<^verbatim>\<open>Hi\<close> typed.\<close>

definition exIdle :: "nat \<Rightarrow> chat_state" where
  "exIdle n =
     \<lparr> messages = map (\<lambda>t. exUserMessage t [72, 105]) [0..<n],
       canSendMessage = True,
       streamingMessageIdRef = None,
       inputValue = [72, 105],
       inputHeight = 24 \<rparr>"

text \<open>
  An environment: the push channel as given, the fallback answering with \<open>body\<close> read to
  its end, a parser that takes the text after \<^verbatim>\<open>data: \<close> as the \<^verbatim>\<open>result\<close> itself, an
  error handler that never redirects, and updaters run at the next render.
\<close>

definition exEnv :: "bool \<Rightarrow> bool \<Rightarrow> jsstring list \<Rightarrow> send_env" where
  "exEnv connected started body =
     \<lparr> now_user = 100, now_stream = 101, now_complete = 102, now_error = 103,
       conversationId = Some [99],
       createConversationFn = None,
       promptCards = None,
       selectedModel = [109],
       userId = None,
       wsConnected = connected,
       wsStartStreaming = (\<lambda>_. started),
       projectId = Some None,
       authToken = None,
       fetch = (\<lambda>_. Response True 200 [] body Done),
       JSON_parse = (\<lambda>t. Some (SseEvent (Some t))),
       handleAPIError = (\<lambda>_. (Some errorContent_default, False)),
       updaterAtRender = True \<rparr>"

text \<open>
  A response body in two pieces, cut inside a line: \<^verbatim>\<open>data: a\<close>, a line feed and \<^verbatim>\<open>da\<close>,
  then \<^verbatim>\<open>ta: ab\<close> and a line feed.
\<close>

definition exBody :: "jsstring list" where
  "exBody = [[100, 97, 116, 97, 58, 32, 97, 10, 100, 97], [116, 97, 58, 32, 97, 98, 10]]"

section \<open>Properties\<close>

subsection \<open>Looking the streaming message up\<close>

lemma findIndex_SomeD:
  "findIndex p xs = Some k \<Longrightarrow> k < length xs \<and> p (xs ! k)"
  by (induction xs arbitrary: k) (auto split: if_splits)

lemma findIndex_map:
  "findIndex p (map g xs) = findIndex (\<lambda>x. p (g x)) xs"
  by (induction xs) auto

lemma findIndex_append:
  "findIndex p (xs @ ys) =
     (case findIndex p xs of
        Some k \<Rightarrow> Some k
      | None \<Rightarrow> map_option (\<lambda>k. length xs + k) (findIndex p ys))"
  by (induction xs; cases "findIndex p ys") (auto split: option.splits)

lemma findIndex_None_iff:
  "findIndex p xs = None \<longleftrightarrow> (\<forall>x \<in> set xs. \<not> p x)"
  by (induction xs) auto

lemma length_updateStreamingMsg [simp]:
  "length (updateStreamingMsg i upd ms) = length ms"
  by (simp add: updateStreamingMsg_def split: option.splits)

lemma map_msg_id_updateStreamingMsg:
  assumes "\<And>m. msg_id (upd m) = msg_id m"
  shows "map msg_id (updateStreamingMsg i upd ms) = map msg_id ms"
  by (auto simp: updateStreamingMsg_def assms map_update list_eq_iff_nth_eq nth_list_update
           dest: findIndex_SomeD split: option.splits)

lemma findIndex_id_updateStreamingMsg:
  assumes "\<And>m. msg_id (upd m) = msg_id m"
  shows "findIndex (\<lambda>m. msg_id m = j) (updateStreamingMsg i upd ms)
         = findIndex (\<lambda>m. msg_id m = j) ms"
proof -
  have "findIndex (\<lambda>m. msg_id m = j) (updateStreamingMsg i upd ms)
        = findIndex (\<lambda>x. x = j) (map msg_id (updateStreamingMsg i upd ms))"
    by (simp add: findIndex_map)
  also have "\<dots> = findIndex (\<lambda>x. x = j) (map msg_id ms)"
    by (simp add: map_msg_id_updateStreamingMsg assms)
  finally show ?thesis by (simp add: findIndex_map)
qed

lemma updateStreamingMsg_at:
  "findIndex (\<lambda>m. msg_id m = i) ms = Some k \<Longrightarrow>
   updateStreamingMsg i upd ms ! k = upd (ms ! k)"
  by (auto simp: updateStreamingMsg_def dest: findIndex_SomeD)

lemma updateStreamingMsg_other:
  "findIndex (\<lambda>m. msg_id m = i) ms \<noteq> Some k \<Longrightarrow>
   updateStreamingMsg i upd ms ! k = ms ! k"
  by (auto simp: updateStreamingMsg_def split: option.splits)

lemma exInFlight_simps:
  "streamingMessageIdRef (exInFlight p) = Some (StreamingId 2)"
  "findIndex (\<lambda>m. msg_id m = StreamingId 2) (messages (exInFlight p)) = Some 1"
  "messages (exInFlight p) ! 1 = exStreamingMessage 2 p"
  "messages (exInFlight p) ! Suc 0 = exStreamingMessage 2 p"
  "canSendMessage (exInFlight p) = False"
  "length (messages (exInFlight p)) = 2"
  by (simp_all add: exInFlight_def exUserMessage_def exStreamingMessage_def)

lemma chatHistory_exIdle:
  "chatHistory (messages (exIdle n))
   = map (\<lambda>t. \<lparr> role = User, entry_content = Some [72, 105] \<rparr>) [0..<n]"
  by (simp add: exIdle_def chatHistory_def exUserMessage_def comp_def)

lemma trim_Hi: "trim [72, 105] = [72, 105]"
  by (simp add: trim_def isWhiteSpace_def)

lemma exIdle_simps:
  "canSendMessage (exIdle n)"
  "inputValue (exIdle n) = [72, 105]"
  "streamingMessageIdRef (exIdle n) = None"
  by (simp_all add: exIdle_def)

lemma exEnv_simps:
  "wsConnected (exEnv connected started body) = connected"
  "wsStartStreaming (exEnv connected started body) w = started"
  "projectId (exEnv connected started body) = Some None"
  "fetch (exEnv connected started body) q = Response True 200 [] body Done"
  "JSON_parse (exEnv connected started body) t = Some (SseEvent (Some t))"
  "handleAPIError (exEnv connected started body) e = (Some errorContent_default, False)"
  "now_stream (exEnv connected started body) = 101"
  "now_user (exEnv connected started body) = 100"
  "now_complete (exEnv connected started body) = 102"
  "now_error (exEnv connected started body) = 103"
  "updaterAtRender (exEnv connected started body)"
  by (simp_all add: exEnv_def)

subsection \<open>A frame with no streaming message to go to\<close>

lemma deliver_ref_None:
  "streamingMessageIdRef s = None \<Longrightarrow> deliver f s = s"
proof (cases f)
  case (PushFrame now ev)
  assume "streamingMessageIdRef s = None"
  then show ?thesis
  proof (cases ev)
    case (Parsed d)
    with PushFrame \<open>streamingMessageIdRef s = None\<close> show ?thesis by (cases d) simp_all
  next
    case Malformed
    with PushFrame show ?thesis by simp
  qed
next
  case (PullResult r)
  assume "streamingMessageIdRef s = None"
  with PullResult show ?thesis by (simp add: handleStreamingResponse_def)
qed

lemma deliverAll_ref_None:
  "streamingMessageIdRef s = None \<Longrightarrow> deliverAll fs s = s"
  by (induction fs) (simp_all add: deliver_ref_None)

lemma terminal_ref_None:
  "streamingMessageIdRef (handleWebSocketMessage now (Parsed (StreamComplete fc srcs tp)) s) = None"
  "streamingMessageIdRef (handleWebSocketMessage now (Parsed (ErrorFrame m)) s) = None"
  "streamingMessageIdRef (handleStreamingComplete now r s) = None"
  "streamingMessageIdRef (handleStopGeneration now s) = None"
  by (simp_all add: handleStreamingComplete_def handleStopGeneration_def Let_def
               split: option.splits)

lemma sendFailed_ref_None:
  "\<not> snd (handleAPIError env err) \<Longrightarrow> streamingMessageIdRef (sendFailed env err s) = None"
  by (cases "handleAPIError env err") (simp add: sendFailed_def)

subsection \<open>Chunks keep the streaming message in place\<close>

lemma deliver_chunk_ref:
  "streamingMessageIdRef (deliver (chunkFrame x) s) = streamingMessageIdRef s"
  by (cases x) (simp add: chunkFrame_def split: option.splits)

lemma deliver_chunk_findIndex:
  "findIndex (\<lambda>m. msg_id m = j) (messages (deliver (chunkFrame x) s))
   = findIndex (\<lambda>m. msg_id m = j) (messages s)"
  by (cases x)
     (simp add: chunkFrame_def findIndex_id_updateStreamingMsg applyChunk_def
           split: option.splits)

lemma deliverAll_chunks_ref:
  "streamingMessageIdRef (deliverAll (map chunkFrame cs) s) = streamingMessageIdRef s"
  by (induction cs arbitrary: s) (simp_all add: deliver_chunk_ref)

lemma deliverAll_chunks_findIndex:
  "findIndex (\<lambda>m. msg_id m = j) (messages (deliverAll (map chunkFrame cs) s))
   = findIndex (\<lambda>m. msg_id m = j) (messages s)"
  by (induction cs arbitrary: s) (simp_all add: deliver_chunk_findIndex)

subsection \<open>The single-flight gate\<close>

text \<open>
  Claim C7. While a turn is in flight (\<^verbatim>\<open>canSendMessage\<close> is false), a call of
  \<^verbatim>\<open>handleSendMessage\<close> returns at its first test: the whole state of the hook, so the
  message list, the streaming message and the gate, is what it was, and nothing is handed
  to a transport. The gate is read from the state here; the source reads the value that
  the callback captured when it was last created, which is closed whenever the gate is.
\<close>

theorem second_turn_rejected:
  "\<not> canSendMessage s \<Longrightarrow> handleSendMessage env s = (s, [])"
  by (simp add: handleSendMessage_def)

text \<open>
  With \<^verbatim>\<open>Hi\<close> typed while a turn is in flight the call is rejected; the same call with
  the gate open hands a request to the transport, so it is the gate that rejects.
\<close>

theorem second_turn_rejected_witness:
  "trim (inputValue (setInputValue [72, 105] (exInFlight [72]))) = [72, 105]
   \<and> \<not> canSendMessage (setInputValue [72, 105] (exInFlight [72]))
   \<and> handleSendMessage (exEnv True True []) (setInputValue [72, 105] (exInFlight [72]))
       = (setInputValue [72, 105] (exInFlight [72]), [])
   \<and> length (snd (handleSendMessage (exEnv True True [])
                    ((setInputValue [72, 105] (exInFlight [72]))\<lparr> canSendMessage := True \<rparr>)))
       = 1"
  using second_turn_rejected [of "setInputValue [72, 105] (exInFlight [72])" "exEnv True True []"]
  by (simp add: setInputValue_def exInFlight_simps trim_Hi handleSendMessage_def Let_def
                exEnv_simps)

subsection \<open>Stopping a stream\<close>

text \<open>
  Claim C6. When the ref designates a message with partial content \<open>p\<close>,
  \<^verbatim>\<open>handleStopGeneration\<close> leaves that message with the content \<open>p\<close> followed by the stop
  notice, which begins with two line feeds; the message is no longer streaming nor
  loading, the ref is cleared and the gate is open again.
\<close>

theorem stop_keeps_partial:
  assumes "streamingMessageIdRef s = Some i"
      and "findIndex (\<lambda>m. msg_id m = i) (messages s) = Some k"
      and "content (messages s ! k) = Some p"
  shows "content (messages (handleStopGeneration now s) ! k) = Some (p @ stop_notice)
         \<and> take 2 stop_notice = [10, 10]
         \<and> \<not> isStreaming (messages (handleStopGeneration now s) ! k)
         \<and> \<not> isLoading (messages (handleStopGeneration now s) ! k)
         \<and> streamingMessageIdRef (handleStopGeneration now s) = None
         \<and> canSendMessage (handleStopGeneration now s)"
  using assms
  by (simp add: handleStopGeneration_def updateStreamingMsg_at js_plus_def stop_notice_def)

theorem stop_keeps_partial_witness:
  "content (messages (handleStopGeneration 5 (exInFlight [72, 101])) ! 1)
     = Some ([72, 101] @ stop_notice)
   \<and> canSendMessage (handleStopGeneration 5 (exInFlight [72, 101]))"
  using stop_keeps_partial [of "exInFlight [72, 101]" "StreamingId 2" 1 "[72, 101]" 5]
  by (simp add: exInFlight_simps exStreamingMessage_def)

subsection \<open>The terminal frame of the push transport\<close>

text \<open>
  Claim C4. When the ref designates a message of the list, then after any sequence of
  \<^verbatim>\<open>stream_chunk\<close> frames a \<^verbatim>\<open>stream_complete\<close> frame that carries \<^verbatim>\<open>fullContent\<close> leaves
  that message with exactly this content, whatever the chunks were, and no longer
  streaming.
\<close>

theorem stream_complete_overrides:
  assumes "streamingMessageIdRef s = Some i"
      and "findIndex (\<lambda>m. msg_id m = i) (messages s) = Some k"
  shows "content (messages (deliver (PushFrame now (Parsed (StreamComplete (Some c) srcs tp)))
                     (deliverAll (map chunkFrame cs) s)) ! k) = Some c
         \<and> \<not> isStreaming (messages (deliver (PushFrame now (Parsed (StreamComplete (Some c) srcs tp)))
                     (deliverAll (map chunkFrame cs) s)) ! k)"
  using assms
  by (simp add: deliverAll_chunks_ref deliverAll_chunks_findIndex updateStreamingMsg_at
                applyComplete_def)

theorem stream_complete_overrides_witness:
  "content (messages (deliver (PushFrame 9 (Parsed (StreamComplete (Some [88]) None None)))
              (deliverAll (map chunkFrame [(3, [105], None, None), (4, [33], Some 1, Some 2)])
                 (exInFlight [72]))) ! 1) = Some [88]"
  using stream_complete_overrides
          [of "exInFlight [72]" "StreamingId 2" 1 9 "[88]" None None
              "[(3, [105], None, None), (4, [33], Some 1, Some 2)]"]
  by (simp add: exInFlight_simps)

subsection \<open>The history window of a request\<close>

lemma snd_sseFallback:
  "snd (sseFallback env input h cards s) =
     (case projectId env of
        None \<Rightarrow> []
      | Some pid \<Rightarrow> [SsePost (requestData env pid input h cards)])"
  by (simp add: sseFallback_def Let_def split: option.splits)

lemma historyOf_requestData [simp]:
  "historyOf (SsePost (requestData env pid input h cards)) = h"
  by (simp add: historyOf_def requestData_def)

lemma chatHistory_append:
  "chatHistory (xs @ ys) = chatHistory xs @ chatHistory ys"
  by (simp add: chatHistory_def)

lemma historyOf_handleSendMessage:
  assumes "r \<in> set (snd (handleSendMessage env s))"
  shows "historyOf r =
           slice_last maxHistoryLength
             (chatHistory (messages s)
              @ [\<lparr> role = User, entry_content = Some (trim (inputValue s)) \<rparr>])"
proof -
  let ?h = "slice_last maxHistoryLength
              (chatHistory (messages s)
               @ [\<lparr> role = User, entry_content = Some (trim (inputValue s)) \<rparr>])"
  from assms have go: "trim (inputValue s) \<noteq> []" "canSendMessage s"
    by (auto simp: handleSendMessage_def split: if_splits)
  from assms go have "historyOf r = ?h"
    by (auto simp: handleSendMessage_def Let_def chatHistory_append chatHistory_def
                   historyOf_def snd_sseFallback requestData_def
             split: if_splits prod.splits option.splits
             dest!: arg_cong [where f = snd])
  then show ?thesis .
qed

lemma length_requests_both:
  "length (snd (handleSendMessage (exEnv True False body) (exIdle n))) = 2"
  by (simp add: handleSendMessage_def Let_def exIdle_simps exEnv_simps trim_Hi snd_sseFallback
                split_beta)

text \<open>
  Claim C8. The history of a turn is built from the messages that are neither loading, nor
  errors, nor streaming, followed by the entry of the message being sent. When the
  conversation already holds more than fifty such entries, every request that
  \<^verbatim>\<open>handleSendMessage\<close> hands to a transport, the WebSocket one and the SSE one alike,
  carries exactly the last fifty entries of that history, in their order: the last
  forty-nine earlier entries and the entry of the message being sent.
\<close>

theorem history_window:
  assumes "50 < length (chatHistory (messages s))"
      and "r \<in> set (snd (handleSendMessage env s))"
  shows "historyOf r =
           drop (length (chatHistory (messages s)) - 49)
             (chatHistory (messages s)
              @ [\<lparr> role = User, entry_content = Some (trim (inputValue s)) \<rparr>])
         \<and> length (historyOf r) = 50"
  using assms(1) historyOf_handleSendMessage [OF assms(2)]
  by (simp add: slice_last_def maxHistoryLength_def)

theorem history_window_witness:
  "length (snd (handleSendMessage (exEnv True False []) (exIdle 60))) = 2
   \<and> length (historyOf (hd (snd (handleSendMessage (exEnv True False []) (exIdle 60))))) = 50
   \<and> length (historyOf (last (snd (handleSendMessage (exEnv True False []) (exIdle 60))))) = 50"
proof -
  let ?rs = "snd (handleSendMessage (exEnv True False []) (exIdle 60))"
  have len: "length ?rs = 2" by (rule length_requests_both)
  then have ne: "?rs \<noteq> []" by auto
  have big: "50 < length (chatHistory (messages (exIdle 60)))"
    by (simp add: chatHistory_exIdle)
  from ne have "hd ?rs \<in> set ?rs" and "last ?rs \<in> set ?rs" by simp_all
  then show ?thesis
    using len history_window [OF big, of "hd ?rs" "exEnv True False []", THEN conjunct2]
          history_window [OF big, of "last ?rs" "exEnv True False []", THEN conjunct2]
    by simp
qed

subsection \<open>The read loop of the pull transport\<close>

lemma processLine_linePayload:
  "processLine parse acc line =
     (case linePayload parse line of
        None \<Rightarrow> acc
      | Some r \<Rightarrow> (r, handleStreamingResponse r (snd acc)))"
  by (simp add: processLine_def linePayload_def split: option.splits)

lemma deliverAll_append: "deliverAll (fs @ gs) s = deliverAll gs (deliverAll fs s)"
  by (induction fs arbitrary: s) simp_all

lemma map_filter_append:
  "List.map_filter f (xs @ ys) = List.map_filter f xs @ List.map_filter f ys"
  by (simp add: List.map_filter_def)

lemma foldl_processLine:
  "foldl (processLine parse) (fr, s) ls =
     (if List.map_filter (linePayload parse) ls = [] then fr
      else last (List.map_filter (linePayload parse) ls),
      deliverAll (map PullResult (List.map_filter (linePayload parse) ls)) s)"
proof (induction ls arbitrary: fr s)
  case Nil
  then show ?case by simp
next
  case (Cons l ls)
  show ?case
  proof (cases "linePayload parse l")
    case None
    then have "processLine parse (fr, s) l = (fr, s)"
      by (simp add: processLine_linePayload)
    with None show ?thesis by (simp add: Cons.IH)
  next
    case (Some r)
    then have "processLine parse (fr, s) l = (r, handleStreamingResponse r s)"
      by (simp add: processLine_linePayload)
    with Some show ?thesis by (simp add: Cons.IH)
  qed
qed

lemma readLoop_payloads:
  "snd (readLoop parse body buffer (fr, s)) =
     (if List.map_filter (linePayload parse) (bodyLines body buffer) = [] then fr
      else last (List.map_filter (linePayload parse) (bodyLines body buffer)),
      deliverAll (map PullResult (List.map_filter (linePayload parse) (bodyLines body buffer))) s)"
proof (induction body arbitrary: buffer fr s)
  case Nil
  then show ?case by simp
next
  case (Cons v rest)
  show ?case
    by (simp add: Let_def foldl_processLine Cons.IH map_filter_append deliverAll_append)
qed





subsection \<open>Content and status of a message along a run\<close>

lemma updateStreamingMsg_step:
  assumes ref: "\<And>j. findIndex (\<lambda>m. msg_id m = i) ms = Some j \<Longrightarrow> isStreaming (ms ! j)"
      and upd: "\<And>m. isStreaming (upd m) \<Longrightarrow> prefix (or_empty (content m)) (or_empty (content (upd m)))"
  shows "(\<not> isStreaming (ms ! k) \<longrightarrow> \<not> isStreaming (updateStreamingMsg i upd ms ! k))
         \<and> (isStreaming (updateStreamingMsg i upd ms ! k) \<longrightarrow>
              prefix (or_empty (content (ms ! k)))
                     (or_empty (content (updateStreamingMsg i upd ms ! k))))"
proof (cases "findIndex (\<lambda>m. msg_id m = i) ms = Some k")
  case True
  then show ?thesis using ref [of k] upd [of "ms ! k"] by (simp add: updateStreamingMsg_at)
next
  case False
  then show ?thesis by (simp add: updateStreamingMsg_other)
qed

lemma applyEvent_step:
  assumes "refStreaming s"
  shows "(\<not> isStreaming (messages s ! k) \<longrightarrow> \<not> isStreaming (messages (applyEvent e s) ! k))
         \<and> (isStreaming (messages (applyEvent e s) ! k) \<longrightarrow>
              prefix (or_empty (content (messages s ! k)))
                     (or_empty (content (messages (applyEvent e s) ! k))))"
proof (cases "streamingMessageIdRef s")
  case None
  then have "applyEvent e s = s\<lparr>canSendMessage := True\<rparr> \<or> applyEvent e s = s"
    by (cases e) (simp_all add: deliver_ref_None handleStreamingComplete_def
                                handleStopGeneration_def)
  then show ?thesis by auto
next
  case (Some i)
  with assms have ref: "\<And>j. findIndex (\<lambda>m. msg_id m = i) (messages s) = Some j \<Longrightarrow>
                          isStreaming (messages s ! j)"
    by (simp add: refStreaming_def)
  have upd: "\<And>upd. (\<And>m. isStreaming (upd m) \<Longrightarrow>
                        prefix (or_empty (content m)) (or_empty (content (upd m)))) \<Longrightarrow>
       (\<not> isStreaming (messages s ! k) \<longrightarrow>
          \<not> isStreaming (updateStreamingMsg i upd (messages s) ! k))
       \<and> (isStreaming (updateStreamingMsg i upd (messages s) ! k) \<longrightarrow>
            prefix (or_empty (content (messages s ! k)))
                   (or_empty (content (updateStreamingMsg i upd (messages s) ! k))))"
    by (rule updateStreamingMsg_step [OF ref])
  have chunk: "\<And>c a b m. isStreaming (applyChunk c a b m) \<Longrightarrow>
                 prefix (or_empty (content m)) (or_empty (content (applyChunk c a b m)))"
    by (simp add: applyChunk_def or_empty_def)
  have complete: "\<And>now fc srcs tp m. \<not> isStreaming (applyComplete now fc srcs tp m)"
    by (simp add: applyComplete_def)
  have err: "\<And>now x m. \<not> isStreaming (applyError now x m)"
    by (simp add: applyError_def)
  show ?thesis
  proof (cases e)
    case (Delivered f)
    show ?thesis
    proof (cases f)
      case (PushFrame now ev)
      show ?thesis
      proof (cases ev)
        case (Parsed d)
        show ?thesis
        proof (cases d)
          case (StreamChunk c a b)
          with Parsed Delivered PushFrame Some show ?thesis
            using upd [of "applyChunk c a b", OF chunk] by simp
        next
          case (StreamComplete fc srcs tp)
          with Parsed Delivered PushFrame Some show ?thesis
            using upd [of "applyComplete now fc srcs tp"] complete by simp
        next
          case (ErrorFrame x)
          with Parsed Delivered PushFrame Some show ?thesis
            using upd [of "applyError now x"] err by simp
        qed (use Parsed Delivered PushFrame in simp_all)
      next
        case Malformed
        with Delivered PushFrame show ?thesis by simp
      qed
    next
      case (PullResult r)
      with Delivered Some show ?thesis
        using upd [of "\<lambda>msg. msg\<lparr> content := Some (js_plus (content msg) r),
                             isLoading := True, isStreaming := True \<rparr>"]
        by (simp add: handleStreamingResponse_def js_plus_def or_empty_def
                 split: option.splits)
    qed
  next
    case (PullCompleted now r)
    with Some show ?thesis
      using upd [of "\<lambda>msg. msg\<lparr> content := Some r, isLoading := False,
                             isStreaming := False, timestamp := now \<rparr>"]
      by (simp add: handleStreamingComplete_def)
  next
    case (StopRequested now)
    with Some show ?thesis
      using upd [of "\<lambda>msg. msg\<lparr> content := Some (js_plus (content msg) stop_notice),
                             isLoading := False, isStreaming := False, timestamp := now \<rparr>"]
      by (simp add: handleStopGeneration_def)
  qed
qed

lemma refStreaming_applyEvent:
  assumes "refStreaming s"
  shows "refStreaming (applyEvent e s)"
proof (cases "streamingMessageIdRef s")
  case None
  then have "applyEvent e s = s\<lparr>canSendMessage := True\<rparr> \<or> applyEvent e s = s"
    by (cases e) (simp_all add: deliver_ref_None handleStreamingComplete_def
                                handleStopGeneration_def)
  with assms None show ?thesis by (auto simp: refStreaming_def)
next
  case (Some i)
  have keep: "\<And>upd. (\<And>m. msg_id (upd m) = msg_id m) \<Longrightarrow> (\<And>m. isStreaming (upd m)) \<Longrightarrow>
                refStreaming (s\<lparr>messages := updateStreamingMsg i upd (messages s)\<rparr>)"
    using Some
    by (auto simp: refStreaming_def findIndex_id_updateStreamingMsg updateStreamingMsg_at
             split: option.splits)
  show ?thesis
  proof (cases e)
    case (Delivered f)
    show ?thesis
    proof (cases f)
      case (PushFrame now ev)
      show ?thesis
      proof (cases ev)
        case (Parsed d)
        show ?thesis
        proof (cases d)
          case (StreamChunk c a b)
          with Parsed Delivered PushFrame Some show ?thesis
            using keep [of "applyChunk c a b"] by (simp add: applyChunk_def)
        qed (use Parsed Delivered PushFrame Some assms in \<open>simp_all add: refStreaming_def\<close>)
      next
        case Malformed
        with Delivered PushFrame assms show ?thesis by simp
      qed
    next
      case (PullResult r)
      with Delivered Some show ?thesis
        using keep [of "\<lambda>msg. msg\<lparr> content := Some (js_plus (content msg) r),
                              isLoading := True, isStreaming := True \<rparr>"]
        by (simp add: handleStreamingResponse_def)
    qed
  next
    case (PullCompleted now r)
    with Some show ?thesis by (simp add: handleStreamingComplete_def refStreaming_def)
  next
    case (StopRequested now)
    with Some show ?thesis by (simp add: handleStopGeneration_def refStreaming_def)
  qed
qed

lemma run_append: "run (es1 @ es2) s = run es2 (run es1 s)"
  by (induction es1 arbitrary: s) simp_all

lemma refStreaming_run: "refStreaming s \<Longrightarrow> refStreaming (run es s)"
  by (induction es arbitrary: s) (simp_all add: refStreaming_applyEvent)

lemma run_steps:
  assumes "refStreaming s"
  shows "(\<not> isStreaming (messages s ! k) \<longrightarrow> \<not> isStreaming (messages (run es s) ! k))
         \<and> (isStreaming (messages (run es s) ! k) \<longrightarrow>
              prefix (or_empty (content (messages s ! k)))
                     (or_empty (content (messages (run es s) ! k))))"
  using assms
proof (induction es arbitrary: s)
  case Nil
  then show ?case by simp
next
  case (Cons e es)
  from Cons.prems have r1: "refStreaming (applyEvent e s)" by (rule refStreaming_applyEvent)
  note step = applyEvent_step [OF Cons.prems, of k e]
  note rest = Cons.IH [OF r1]
  show ?case using step rest by (auto intro: prefix_order.trans)
qed

text \<open>
  The state that \<^verbatim>\<open>handleSendMessage\<close> leaves has the ref on a streaming message, or
  cleared, when the id of the new placeholder is not the id of an earlier message.
\<close>

lemma run_Delivered: "run (map Delivered fs) s = deliverAll fs s"
  by (induction fs arbitrary: s) simp_all

lemma refStreaming_deliverAll: "refStreaming s \<Longrightarrow> refStreaming (deliverAll fs s)"
  using refStreaming_run [of s "map Delivered fs"] by (simp add: run_Delivered)

lemma refStreaming_sendFailed: "refStreaming s \<Longrightarrow> refStreaming (sendFailed env err s)"
  by (cases "handleAPIError env err") (simp add: sendFailed_def refStreaming_def)

lemma refStreaming_gate [simp]:
  "refStreaming (s\<lparr>canSendMessage := b\<rparr>) = refStreaming s"
  by (simp add: refStreaming_def cong: option.case_cong)

lemma refStreaming_sseFallback:
  assumes "refStreaming s"
  shows "refStreaming (fst (sseFallback env input h cards s))"
proof (cases "projectId env")
  case None
  with assms show ?thesis by (simp add: sseFallback_def refStreaming_sendFailed)
next
  case (Some pid)
  show ?thesis
  proof (cases "fetch env (requestData env pid input h cards)")
    case (FetchRejected e)
    with Some assms show ?thesis by (simp add: sseFallback_def refStreaming_sendFailed)
  next
    case (Response ok status statusText body ending)
    obtain fr s' where loop: "snd (readLoop (JSON_parse env) body [] ([], s)) = (fr, s')"
      by (cases "snd (readLoop (JSON_parse env) body [] ([], s))")
    then have s': "s' = deliverAll (map PullResult (payloads (JSON_parse env) body)) s"
      by (simp add: readLoop_payloads payloads_def)
    with assms have r: "refStreaming s'" by (simp add: refStreaming_deliverAll)
    have fin: "refStreaming (handleStreamingComplete (now_complete env) fr s')"
      using refStreaming_applyEvent [OF r, of "PullCompleted (now_complete env) fr"] by simp
    from loop Some Response assms r fin show ?thesis
      by (cases "readLoop (JSON_parse env) body [] ([], s)"; cases ending)
         (auto simp: sseFallback_def Let_def refStreaming_sendFailed)
  qed
qed

lemma findIndex_placeholder:
  assumes "i \<notin> msg_id ` set ms" and "msg_id um \<noteq> i" and "msg_id sm = i"
  shows "findIndex (\<lambda>m. msg_id m = i) (ms @ [um, sm]) = Some (Suc (length ms))"
proof -
  from assms(1) have "findIndex (\<lambda>m. msg_id m = i) ms = None"
    by (auto simp: findIndex_None_iff)
  with assms(2,3) show ?thesis by (simp add: findIndex_append)
qed

lemma refStreaming_handleSendMessage:
  assumes "refStreaming s"
      and "StreamingId (now_stream env) \<notin> msg_id ` set (messages s)"
  shows "refStreaming (fst (handleSendMessage env s))"
proof (cases "trim (inputValue s) = [] \<or> \<not> canSendMessage s")
  case True
  with assms(1) show ?thesis by (auto simp: handleSendMessage_def)
next
  case False
  let ?um = "\<lparr> msg_id = UserId (now_user env), msg_type = User,
               content = Some (trim (inputValue s)), timestamp = now_user env,
               isLoading = False, isStreaming = False, isError = False, sources = [],
               thinkingProcess = [], typingProgress = None, errorDetails = None \<rparr>"
  let ?sm = "\<lparr> msg_id = StreamingId (now_stream env), msg_type = Assistant,
               content = Some [], timestamp = now_stream env,
               isLoading = True, isStreaming = True, isError = False, sources = [],
               thinkingProcess = [], typingProgress = None, errorDetails = None \<rparr>"
  let ?s1 = "s\<lparr> canSendMessage := False,
                streamingMessageIdRef := Some (StreamingId (now_stream env)),
                messages := messages s @ [?um, ?sm],
                inputValue := [],
                inputHeight := 24 \<rparr>"
  have "findIndex (\<lambda>m. msg_id m = StreamingId (now_stream env)) (messages s @ [?um, ?sm])
        = Some (Suc (length (messages s)))"
    by (rule findIndex_placeholder [OF assms(2)]) simp_all
  then have r1: "refStreaming ?s1" by (simp add: refStreaming_def nth_append)
  from False r1 show ?thesis
    by (auto simp: handleSendMessage_def Let_def split_beta refStreaming_sseFallback)
qed

lemma refStreaming_exInFlight: "refStreaming (exInFlight p)"
  by (simp add: refStreaming_def exInFlight_simps exStreamingMessage_def)

text \<open>
  Claim C9. Take a state in which the message that the ref designates, if any, is
  streaming, and any sequence of events: frames of either transport, the completion
  callback of the pull transport, the stop handler. Between any two points of the run, a
  message that is streaming at the later point has a content that extends the content it
  had at the earlier point, so its length has not decreased; and a message that is not
  streaming at the earlier point is not streaming at the later one.
\<close>

theorem streaming_grows_terminal_stays:
  assumes "refStreaming s"
  shows "(isStreaming (messages (run (es1 @ es2) s) ! k) \<longrightarrow>
            prefix (or_empty (content (messages (run es1 s) ! k)))
                   (or_empty (content (messages (run (es1 @ es2) s) ! k)))
            \<and> contentLength (messages (run es1 s) ! k)
                \<le> contentLength (messages (run (es1 @ es2) s) ! k))
         \<and> (\<not> isStreaming (messages (run es1 s) ! k) \<longrightarrow>
              \<not> isStreaming (messages (run (es1 @ es2) s) ! k))"
  using run_steps [OF refStreaming_run [OF assms, of es1], of k es2]
  by (auto simp: run_append contentLength_def dest: prefix_length_le)

theorem streaming_grows_terminal_stays_witness:
  "refStreaming (exInFlight [72])
   \<and> isStreaming (messages (run ([Delivered (chunkFrame (3, [105], None, None))]
                               @ [Delivered (PullResult [33])]) (exInFlight [72])) ! 1)
   \<and> contentLength (messages (run [Delivered (chunkFrame (3, [105], None, None))]
                                (exInFlight [72])) ! 1)
       \<le> contentLength (messages (run ([Delivered (chunkFrame (3, [105], None, None))]
                                       @ [Delivered (PullResult [33])]) (exInFlight [72])) ! 1)"
proof -
  have h: "refStreaming (exInFlight [72])" by (rule refStreaming_exInFlight)
  have st: "isStreaming (messages (run ([Delivered (chunkFrame (3, [105], None, None))]
                               @ [Delivered (PullResult [33])]) (exInFlight [72])) ! 1)"
    by (simp add: chunkFrame_def handleStreamingResponse_def exInFlight_def
                  updateStreamingMsg_def applyChunk_def exUserMessage_def
                  exStreamingMessage_def)
  from streaming_grows_terminal_stays
         [OF h, of "[Delivered (chunkFrame (3, [105], None, None))]"
             "[Delivered (PullResult [33])]" 1]
       st h
  show ?thesis by blast
qed

lemma payloads_exBody:
  "payloads (JSON_parse (exEnv c st b)) exBody = [[97], [97, 98]]"
  by (simp add: payloads_def exBody_def exEnv_simps linePayload_def startsWith_def
                str_data_prefix_def Let_def)



text \<open>
  Claim C1. On the body of two lines with the payloads \<^verbatim>\<open>a\<close> and \<^verbatim>\<open>ab\<close>, the read loop
  keeps the last payload \<^verbatim>\<open>ab\<close> in \<^verbatim>\<open>fullResponse\<close> and hands both payloads to
  \<^verbatim>\<open>handleStreamingResponse\<close>, which appends: the streaming message holds \<^verbatim>\<open>a\<close> after the
  first frame and \<^verbatim>\<open>aab\<close>, not \<^verbatim>\<open>ab\<close>, after the second.
\<close>

theorem pull_frames_accumulate:
  "snd (readLoop (JSON_parse (exEnv False False exBody)) exBody [] ([], exInFlight []))
     = ([97, 98], deliverAll [PullResult [97], PullResult [97, 98]] (exInFlight []))
   \<and> content (messages (deliverAll [PullResult [97]] (exInFlight [])) ! 1) = Some [97]
   \<and> content (messages (deliverAll [PullResult [97], PullResult [97, 98]] (exInFlight [])) ! 1)
       = Some [97, 97, 98]"
  by (simp add: readLoop_payloads payloads_exBody [unfolded payloads_def]
                handleStreamingResponse_def exInFlight_def updateStreamingMsg_def
                exUserMessage_def exStreamingMessage_def js_plus_def)

subsection \<open>Frames after the end of a stream\<close>

lemma updateStreamingMsg_take:
  assumes "i \<notin> msg_id ` set (take n ms)"
  shows "take n (updateStreamingMsg i upd ms) = take n ms"
proof (cases "findIndex (\<lambda>m. msg_id m = i) ms")
  case None
  then show ?thesis by (simp add: updateStreamingMsg_def)
next
  case (Some j)
  then have j: "j < length ms" "msg_id (ms ! j) = i"
    by (auto dest: findIndex_SomeD)
  have "n \<le> j"
  proof (rule ccontr)
    assume "\<not> n \<le> j"
    with j have "ms ! j \<in> set (take n ms)"
      by (auto simp: in_set_conv_nth intro!: exI [of _ j])
    with j(2) assms show False by auto
  qed
  with Some show ?thesis by (simp add: updateStreamingMsg_def)
qed

lemma refBeyond_update:
  assumes "refBeyond n s"
      and "streamingMessageIdRef s' = None \<or> streamingMessageIdRef s' = streamingMessageIdRef s"
      and "take n (messages s') = take n (messages s)"
  shows "refBeyond n s'"
  using assms by (auto simp: refBeyond_def split: option.splits)

lemma applyEvent_take:
  assumes "refBeyond n s"
  shows "take n (messages (applyEvent e s)) = take n (messages s)
         \<and> refBeyond n (applyEvent e s)"
proof (cases "streamingMessageIdRef s")
  case None
  then have "applyEvent e s = s\<lparr>canSendMessage := True\<rparr> \<or> applyEvent e s = s"
    by (cases e) (simp_all add: deliver_ref_None handleStreamingComplete_def
                                handleStopGeneration_def)
  with assms None show ?thesis by (auto simp: refBeyond_def)
next
  case (Some i)
  with assms have beyond: "i \<notin> msg_id ` set (take n (messages s))"
    by (simp add: refBeyond_def)
  note keep = updateStreamingMsg_take [OF beyond]
  have msgs: "take n (messages (applyEvent e s)) = take n (messages s)"
   and ref: "streamingMessageIdRef (applyEvent e s) = None
             \<or> streamingMessageIdRef (applyEvent e s) = streamingMessageIdRef s"
  proof -
    show "take n (messages (applyEvent e s)) = take n (messages s)"
    proof (cases e)
      case (Delivered f)
      show ?thesis
      proof (cases f)
        case (PushFrame now ev)
        show ?thesis
        proof (cases ev)
          case (Parsed d)
          with Delivered PushFrame Some show ?thesis by (cases d) (simp_all add: keep)
        next
          case Malformed
          with Delivered PushFrame show ?thesis by simp
        qed
      next
        case (PullResult r)
        with Delivered Some show ?thesis by (simp add: handleStreamingResponse_def keep)
      qed
    next
      case (PullCompleted now r)
      with Some show ?thesis by (simp add: handleStreamingComplete_def keep)
    next
      case (StopRequested now)
      with Some show ?thesis by (simp add: handleStopGeneration_def keep)
    qed
    show "streamingMessageIdRef (applyEvent e s) = None
          \<or> streamingMessageIdRef (applyEvent e s) = streamingMessageIdRef s"
    proof (cases e)
      case (Delivered f)
      show ?thesis
      proof (cases f)
        case (PushFrame now ev)
        show ?thesis
        proof (cases ev)
          case (Parsed d)
          with Delivered PushFrame Some show ?thesis by (cases d) simp_all
        next
          case Malformed
          with Delivered PushFrame show ?thesis by simp
        qed
      next
        case (PullResult r)
        with Delivered Some show ?thesis by (simp add: handleStreamingResponse_def)
      qed
    next
      case (PullCompleted now r)
      with Some show ?thesis by (simp add: handleStreamingComplete_def)
    next
      case (StopRequested now)
      with Some show ?thesis by (simp add: handleStopGeneration_def)
    qed
  qed
  from refBeyond_update [OF assms ref msgs] msgs show ?thesis by simp
qed

lemma run_take:
  "refBeyond n s \<Longrightarrow>
   take n (messages (run es s)) = take n (messages s) \<and> refBeyond n (run es s)"
proof (induction es arbitrary: s)
  case Nil
  then show ?case by simp
next
  case (Cons e es)
  from applyEvent_take [OF Cons.prems, of e] Cons.IH [of "applyEvent e s"]
  show ?case by simp
qed

lemma deliverAll_take:
  "refBeyond n s \<Longrightarrow>
   take n (messages (deliverAll fs s)) = take n (messages s) \<and> refBeyond n (deliverAll fs s)"
  using run_take [of n s "map Delivered fs"] by (simp add: run_Delivered)

lemma take_filter_keep:
  assumes "\<forall>x \<in> set (take n xs). P x" and "n \<le> length xs"
  shows "take n (filter P xs @ ys) = take n xs"
proof -
  have "filter P xs = filter P (take n xs) @ filter P (drop n xs)"
    by (metis append_take_drop_id filter_append)
  also from assms(1) have "filter P (take n xs) = take n xs"
    by (simp add: filter_id_conv)
  finally show ?thesis using assms(2) by simp
qed

lemma sendFailed_take:
  assumes "refBeyond n s" and "n \<le> length (messages s)"
  shows "take n (messages (sendFailed env err s)) = take n (messages s)
         \<and> refBeyond n (sendFailed env err s)"
proof (cases "handleAPIError env err")
  case (Pair notice redirect)
  show ?thesis
  proof (cases redirect)
    case True
    with Pair assms show ?thesis by (simp add: sendFailed_def)
  next
    case False
    have "\<forall>x \<in> set (take n (messages s)).
            Some (msg_id x) \<noteq> (if updaterAtRender env then None else streamingMessageIdRef s)"
      using assms(1) by (auto simp: refBeyond_def split: option.splits)
    from take_filter_keep [OF this assms(2)] Pair False show ?thesis
      by (simp add: sendFailed_def Let_def refBeyond_def)
  qed
qed

lemma length_deliverAll [simp]: "length (messages (deliverAll fs s)) = length (messages s)"
proof (induction fs arbitrary: s)
  case Nil
  then show ?case by simp
next
  case (Cons f fs)
  have "length (messages (deliver f s)) = length (messages s)"
  proof (cases f)
    case (PushFrame now ev)
    show ?thesis
    proof (cases ev)
      case (Parsed d)
      with PushFrame show ?thesis by (cases d) (simp_all split: option.splits)
    next
      case Malformed
      with PushFrame show ?thesis by simp
    qed
  next
    case (PullResult r)
    then show ?thesis by (simp add: handleStreamingResponse_def split: option.splits)
  qed
  with Cons.IH [of "deliver f s"] show ?case by simp
qed

lemma sseFallback_take:
  assumes "refBeyond n s" and "n \<le> length (messages s)"
  shows "take n (messages (fst (sseFallback env input h cards s))) = take n (messages s)
         \<and> refBeyond n (fst (sseFallback env input h cards s))"
proof (cases "projectId env")
  case None
  with sendFailed_take [OF assms] show ?thesis by (simp add: sseFallback_def)
next
  case (Some pid)
  show ?thesis
  proof (cases "fetch env (requestData env pid input h cards)")
    case (FetchRejected e)
    with Some sendFailed_take [OF assms] show ?thesis by (simp add: sseFallback_def)
  next
    case (Response ok status statusText body ending)
    obtain fr s' where loop: "snd (readLoop (JSON_parse env) body [] ([], s)) = (fr, s')"
      by (cases "snd (readLoop (JSON_parse env) body [] ([], s))")
    then have s': "s' = deliverAll (map PullResult (payloads (JSON_parse env) body)) s"
      by (simp add: readLoop_payloads payloads_def)
    with deliverAll_take [OF assms(1)]
    have t: "take n (messages s') = take n (messages s)" and b: "refBeyond n s'"
      by simp_all
    from s' assms(2) have len: "n \<le> length (messages s')" by simp
    have fin: "take n (messages (handleStreamingComplete (now_complete env) fr s'))
                 = take n (messages s')
               \<and> refBeyond n (handleStreamingComplete (now_complete env) fr s')"
      using applyEvent_take [OF b, of "PullCompleted (now_complete env) fr"] by simp
    then have fin': "refBeyond n ((handleStreamingComplete (now_complete env) fr s')
                                   \<lparr> canSendMessage := True \<rparr>)"
      by (auto simp: refBeyond_def split: option.splits)
    from loop Some Response t fin fin' sendFailed_take [OF assms]
         sendFailed_take [OF b len, of env] show ?thesis
      by (cases "readLoop (JSON_parse env) body [] ([], s)"; cases ending)
         (auto simp: sseFallback_def Let_def)
  qed
qed

lemma handleSendMessage_take:
  assumes "refBeyond n s" and "n \<le> length (messages s)"
      and "StreamingId (now_stream env) \<notin> msg_id ` set (messages s)"
  shows "take n (messages (fst (handleSendMessage env s))) = take n (messages s)
         \<and> refBeyond n (fst (handleSendMessage env s))"
proof (cases "trim (inputValue s) = [] \<or> \<not> canSendMessage s")
  case True
  with assms(1) show ?thesis by (auto simp: handleSendMessage_def)
next
  case False
  let ?um = "\<lparr> msg_id = UserId (now_user env), msg_type = User,
               content = Some (trim (inputValue s)), timestamp = now_user env,
               isLoading = False, isStreaming = False, isError = False, sources = [],
               thinkingProcess = [], typingProgress = None, errorDetails = None \<rparr>"
  let ?sm = "\<lparr> msg_id = StreamingId (now_stream env), msg_type = Assistant,
               content = Some [], timestamp = now_stream env,
               isLoading = True, isStreaming = True, isError = False, sources = [],
               thinkingProcess = [], typingProgress = None, errorDetails = None \<rparr>"
  let ?s1 = "s\<lparr> canSendMessage := False,
                streamingMessageIdRef := Some (StreamingId (now_stream env)),
                messages := messages s @ [?um, ?sm],
                inputValue := [],
                inputHeight := 24 \<rparr>"
  from assms(2) have t1: "take n (messages ?s1) = take n (messages s)" by simp
  from assms(3) have "StreamingId (now_stream env) \<notin> msg_id ` set (take n (messages s))"
    by (auto dest: in_set_takeD)
  with t1 have b1: "refBeyond n ?s1" by (simp add: refBeyond_def)
  from assms(2) have len1: "n \<le> length (messages ?s1)" by simp
  note sse = sseFallback_take [OF b1 len1, of env "Some (trim (inputValue s))"]
  from False t1 b1 sse show ?thesis
    by (auto simp: handleSendMessage_def Let_def split_beta)
qed

text \<open>
  Claim C5, as stated, fails. A turn is stopped, which aborts no transport and opens the
  gate; the user types \<^verbatim>\<open>Hi\<close> and sends the next turn over the WebSocket. A
  \<^verbatim>\<open>stream_chunk\<close> frame of the stopped stream that arrives now is not discarded: it is
  appended to the placeholder of the new turn, and a \<^verbatim>\<open>stream_complete\<close> frame of the
  stopped stream ends the new turn with the old content.
\<close>

theorem late_frame_hits_next_turn:
  "streamingMessageIdRef (handleStopGeneration 5 (exInFlight [72])) = None
   \<and> content (messages (fst (handleSendMessage (exEnv True True [])
                 (setInputValue [72, 105] (handleStopGeneration 5 (exInFlight [72]))))) ! 3)
       = Some []
   \<and> content (messages (deliver (PushFrame 7 (Parsed (StreamChunk [33] None None)))
                 (fst (handleSendMessage (exEnv True True [])
                    (setInputValue [72, 105] (handleStopGeneration 5 (exInFlight [72])))))) ! 3)
       = Some [33]
   \<and> content (messages (deliver (PushFrame 7 (Parsed (StreamComplete (Some [72, 111]) None None)))
                 (fst (handleSendMessage (exEnv True True [])
                    (setInputValue [72, 105] (handleStopGeneration 5 (exInFlight [72])))))) ! 3)
       = Some [72, 111]"
  by (simp add: handleSendMessage_def Let_def setInputValue_def handleStopGeneration_def
                exInFlight_def exEnv_simps trim_Hi updateStreamingMsg_def exUserMessage_def
                exStreamingMessage_def applyChunk_def applyComplete_def or_empty_def)

text \<open>
  Claim C5, amended. Every way a stream ends (a \<^verbatim>\<open>stream_complete\<close> or \<^verbatim>\<open>error\<close> frame,
  the completion callback of the pull transport, the stop handler, the \<^verbatim>\<open>catch\<close> block
  when it does not redirect) clears the ref, and every frame of either transport, of any
  kind and in any number, that arrives before the next turn is started leaves the whole
  state of the hook as it is: messages, ref and gate. Frames carry no stream identifier:
  those that arrive after the next turn has been started, under a placeholder id that no
  message has yet, go to that turn, and still leave every message that was in the list
  when the stream ended, the message of the ended stream among them, as it was.
\<close>

theorem late_frames_discarded:
  assumes "s' = handleWebSocketMessage now (Parsed (StreamComplete fc srcs tp)) s
           \<or> s' = handleWebSocketMessage now (Parsed (ErrorFrame m)) s
           \<or> s' = handleStreamingComplete now r s
           \<or> s' = handleStopGeneration now s
           \<or> (\<not> snd (handleAPIError env err) \<and> s' = sendFailed env err s)"
  shows "deliverAll fs s' = s'
         \<and> (StreamingId (now_stream env') \<notin> msg_id ` set (messages s') \<longrightarrow>
              take (length (messages s'))
                (messages (deliverAll fs (fst (handleSendMessage env' (setInputValue v s')))))
              = messages s')"
proof -
  from assms have none: "streamingMessageIdRef s' = None"
    using terminal_ref_None sendFailed_ref_None by auto
  then have first: "deliverAll fs s' = s'" by (rule deliverAll_ref_None)
  let ?n = "length (messages s')"
  let ?t = "setInputValue v s'"
  from none have b: "refBeyond ?n ?t" by (simp add: refBeyond_def setInputValue_def)
  have len: "?n \<le> length (messages ?t)" by (simp add: setInputValue_def)
  have "take ?n (messages (deliverAll fs (fst (handleSendMessage env' ?t)))) = messages s'"
    if fresh: "StreamingId (now_stream env') \<notin> msg_id ` set (messages s')"
  proof -
    from fresh have "StreamingId (now_stream env') \<notin> msg_id ` set (messages ?t)"
      by (simp add: setInputValue_def)
    from handleSendMessage_take [OF b len this]
    have sent: "take ?n (messages (fst (handleSendMessage env' ?t))) = take ?n (messages ?t)"
      and b': "refBeyond ?n (fst (handleSendMessage env' ?t))"
      by simp_all
    from deliverAll_take [OF b', of fs] sent show ?thesis
      by (simp add: setInputValue_def)
  qed
  with first show ?thesis by simp
qed

theorem late_frames_discarded_witness:
  "deliverAll [PullResult [1], PushFrame 6 (Parsed (StreamChunk [2] None None)),
               PushFrame 7 (Parsed (StreamComplete (Some [3]) None None))]
              (handleStopGeneration 5 (exInFlight [72]))
   = handleStopGeneration 5 (exInFlight [72])
   \<and> take 2 (messages (deliverAll [PushFrame 7 (Parsed (StreamChunk [33] None None))]
                 (fst (handleSendMessage (exEnv True True [])
                    (setInputValue [72, 105] (handleStopGeneration 5 (exInFlight [72]))))))) 
     = messages (handleStopGeneration 5 (exInFlight [72]))"
proof -
  have len: "length (messages (handleStopGeneration 5 (exInFlight [72]))) = 2"
    by (simp add: handleStopGeneration_def exInFlight_def)
  have fresh: "StreamingId (now_stream (exEnv True True []))
               \<notin> msg_id ` set (messages (handleStopGeneration 5 (exInFlight [72])))"
    by (simp add: handleStopGeneration_def exInFlight_def exEnv_simps updateStreamingMsg_def
                  exUserMessage_def exStreamingMessage_def)
  from late_frames_discarded
         [of "handleStopGeneration 5 (exInFlight [72])" 5 None None None "exInFlight [72]"
             None "[]" "exEnv True True []" NoResultInStream
             "[PullResult [1], PushFrame 6 (Parsed (StreamChunk [2] None None)),
               PushFrame 7 (Parsed (StreamComplete (Some [3]) None None))]"]
  have a: "deliverAll [PullResult [1], PushFrame 6 (Parsed (StreamChunk [2] None None)),
               PushFrame 7 (Parsed (StreamComplete (Some [3]) None None))]
              (handleStopGeneration 5 (exInFlight [72]))
           = handleStopGeneration 5 (exInFlight [72])"
    by simp
  from late_frames_discarded
         [of "handleStopGeneration 5 (exInFlight [72])" 5 None None None "exInFlight [72]"
             None "[]" "exEnv True True []" NoResultInStream
             "[PushFrame 7 (Parsed (StreamChunk [33] None None))]" "exEnv True True []"
             "[72, 105]"]
       fresh len
  have b: "take 2 (messages (deliverAll [PushFrame 7 (Parsed (StreamChunk [33] None None))]
                 (fst (handleSendMessage (exEnv True True [])
                    (setInputValue [72, 105] (handleStopGeneration 5 (exInFlight [72])))))))
           = messages (handleStopGeneration 5 (exInFlight [72]))"
    by simp
  from a b show ?thesis by simp
qed

subsection \<open>The gate at the end of a push stream\<close>

lemma handleWebSocketMessage_gate:
  "canSendMessage (handleWebSocketMessage now ev s) = canSendMessage s"
proof (cases ev)
  case (Parsed d)
  then show ?thesis by (cases d) (simp_all split: option.splits)
next
  case Malformed
  then show ?thesis by simp
qed

lemma fst_handleSendMessage_push:
  "fst (handleSendMessage (exEnv True True body) (exIdle 0))
   = \<lparr> messages = [exUserMessage 100 [72, 105], exStreamingMessage 101 []],
       canSendMessage = False,
       streamingMessageIdRef = Some (StreamingId 101),
       inputValue = [],
       inputHeight = 24 \<rparr>"
  by (simp add: handleSendMessage_def Let_def exIdle_def exEnv_simps trim_Hi
                exUserMessage_def exStreamingMessage_def)

text \<open>
  Claim C3. The listener of the push transport never writes \<^verbatim>\<open>canSendMessage\<close>. A turn
  sent over the WebSocket leaves \<^verbatim>\<open>handleSendMessage\<close> with the gate closed, and the gate is
  still closed after the \<^verbatim>\<open>stream_complete\<close> frame has made the message terminal, and after
  an \<^verbatim>\<open>error\<close> frame as well.
\<close>

theorem push_end_keeps_gate_closed:
  "canSendMessage (handleWebSocketMessage now ev s) = canSendMessage s
   \<and> \<not> canSendMessage (fst (handleSendMessage (exEnv True True []) (exIdle 0)))
   \<and> \<not> isStreaming
         (messages (handleWebSocketMessage 9 (Parsed (StreamComplete (Some [79, 75]) None None))
                      (fst (handleSendMessage (exEnv True True []) (exIdle 0)))) ! 1)
   \<and> \<not> canSendMessage
         (handleWebSocketMessage 9 (Parsed (StreamComplete (Some [79, 75]) None None))
            (fst (handleSendMessage (exEnv True True []) (exIdle 0))))
   \<and> \<not> canSendMessage
         (handleWebSocketMessage 9 (Parsed (ErrorFrame None))
            (fst (handleSendMessage (exEnv True True []) (exIdle 0))))"
  by (simp add: handleWebSocketMessage_gate fst_handleSendMessage_push updateStreamingMsg_def
                exUserMessage_def exStreamingMessage_def applyComplete_def)

theorem push_end_keeps_gate_closed_witness:
  "\<not> canSendMessage
       (handleWebSocketMessage 9 (Parsed (StreamComplete (Some [79, 75]) None None))
          (fst (handleSendMessage (exEnv True True []) (exIdle 0))))"
  using push_end_keeps_gate_closed [of 9 Malformed "exIdle 0"] by simp

subsection \<open>Streams that end in an error\<close>





end
